theory Spec2Isabelle
  imports Main "HOL-Library.Sublist"
begin

section \<open>Go library functions used by camweb.go\<close>

text \<open>
  Go strings are byte sequences; they are modelled as \<open>string\<close> (a list of 8-bit
  characters). The functions of package \<open>strings\<close> that the program calls are written
  out on lists.
\<close>

text \<open>\<open>strings.Contains(s, substr)\<close>: does \<open>substr\<close> occur in \<open>s\<close>?\<close>

fun strings_Contains :: "string \<Rightarrow> string \<Rightarrow> bool" where
  "strings_Contains [] substr = (substr = [])"
| "strings_Contains (c # s) substr = (prefix substr (c # s) \<or> strings_Contains s substr)"

text \<open>\<open>strings.HasPrefix(s, prefix)\<close>.\<close>

definition strings_HasPrefix :: "string \<Rightarrow> string \<Rightarrow> bool" where
  "strings_HasPrefix s p = prefix p s"

text \<open>
  \<open>strings.ToLower\<close> on the ASCII letters. (Go also maps upper-case letters outside
  ASCII, decoded from UTF-8; bytes from 128 on are left as they are here. The only
  comparison made with the result is against an ASCII host name.)
\<close>

definition lower_byte :: "char \<Rightarrow> char" where
  "lower_byte c =
     (case map_of (zip ''ABCDEFGHIJKLMNOPQRSTUVWXYZ'' ''abcdefghijklmnopqrstuvwxyz'') c of
        None \<Rightarrow> c
      | Some l \<Rightarrow> l)"

definition strings_ToLower :: "string \<Rightarrow> string" where
  "strings_ToLower s = map lower_byte s"

text \<open>
  \<open>strings.Replace(s, old, new, -1)\<close> for a non-empty \<open>old\<close>: the occurrences of
  \<open>old\<close> are replaced from left to right, without overlap. (For an empty \<open>old\<close> Go
  inserts \<open>new\<close> at every rune boundary; the program never passes one, and the model
  leaves such a string unchanged.)
\<close>

function strings_Replace :: "string \<Rightarrow> string \<Rightarrow> string \<Rightarrow> string" where
  "strings_Replace [] old new = []"
| "strings_Replace (c # s) old new =
     (if old \<noteq> [] \<and> prefix old (c # s)
      then new @ strings_Replace (drop (length old) (c # s)) old new
      else c # strings_Replace s old new)"
  by pat_completeness auto
termination
  by (relation "measure (\<lambda>(s, old, new). length s)") (auto simp: Suc_le_eq)

text \<open>
  \<open>strings.Index(s, substr)\<close> returns the position of the first occurrence, or -1;
  \<open>None\<close> stands for -1.
\<close>

fun strings_Index :: "string \<Rightarrow> string \<Rightarrow> nat option" where
  "strings_Index [] substr = (if substr = [] then Some 0 else None)"
| "strings_Index (c # s) substr =
     (if prefix substr (c # s) then Some 0
      else map_option Suc (strings_Index s substr))"

text \<open>\<open>strings.TrimRight(s, cutset)\<close>: drop the trailing bytes that are in \<open>cutset\<close>.\<close>

definition strings_TrimRight :: "string \<Rightarrow> string \<Rightarrow> string" where
  "strings_TrimRight s cutset = rev (dropWhile (\<lambda>c. c \<in> set cutset) (rev s))"

text \<open>\<open>strings.Join(elems, sep)\<close>: the elements, with \<open>sep\<close> between neighbours.\<close>

fun strings_Join :: "string list \<Rightarrow> string \<Rightarrow> string" where
  "strings_Join [] sep = []"
| "strings_Join [x] sep = x"
| "strings_Join (x # y # zs) sep = x @ sep @ strings_Join (y # zs) sep"

section \<open>Paths\<close>

text \<open>
  \<open>path.Clean\<close> (and \<open>filepath.Clean\<close>, the same function where the separator is
  the slash) as its documentation states it: the path is cut at the slashes; empty
  elements and \<open>.\<close> elements are dropped; a \<open>..\<close> element removes the element before
  it when there is one that is not itself \<open>..\<close>, is dropped at the root of a rooted
  path, and is kept otherwise; the empty result is \<open>.\<close>.
\<close>

fun split_sep :: "string \<Rightarrow> string list" where
  "split_sep [] = [[]]"
| "split_sep (c # s) =
     (if c = CHR ''/'' then [] # split_sep s
      else (case split_sep s of [] \<Rightarrow> [[c]] | x # xs \<Rightarrow> (c # x) # xs))"

definition clean_step :: "bool \<Rightarrow> string list \<Rightarrow> string \<Rightarrow> string list" where
  "clean_step rooted out seg =
     (if seg = [] \<or> seg = ''.'' then out
      else if seg = ''..'' then
        (if out \<noteq> [] \<and> last out \<noteq> ''..'' then butlast out
         else if rooted then out
         else out @ [''..''])
      else out @ [seg])"

definition clean_elems :: "string \<Rightarrow> string list" where
  "clean_elems p = foldl (clean_step (prefix ''/'' p)) [] (split_sep p)"

definition path_Clean :: "string \<Rightarrow> string" where
  "path_Clean p =
     (if p = [] then ''.''
      else (let out = (if prefix ''/'' p then ''/'' else []) @ strings_Join (clean_elems p) ''/'' 
            in if out = [] then ''.'' else out))"

text \<open>
  \<open>filepath.Join(elem...)\<close>: the elements from the first non-empty one on, joined by
  slashes and cleaned; the empty string when every element is empty.
\<close>

definition filepath_Join :: "string list \<Rightarrow> string" where
  "filepath_Join elem =
     (case dropWhile (\<lambda>e. e = []) elem of
        [] \<Rightarrow> []
      | e # es \<Rightarrow> path_Clean (strings_Join (e # es) ''/''))"

text \<open>\<open>cleanPath\<close> of \<open>net/http\<close>: the canonical form of a request path.\<close>

definition cleanPath :: "string \<Rightarrow> string" where
  "cleanPath p =
     (if p = [] then ''/''
      else (let q = (if hd p \<noteq> CHR ''/'' then CHR ''/'' # p else p);
                np = path_Clean q
            in if last q = CHR ''/'' \<and> np \<noteq> ''/'' then np @ ''/'' else np))"

section \<open>Requests, configuration and effects\<close>

text \<open>
  What a handler reads of an \<open>*http.Request\<close>: the method, \<open>r.Host\<close>, the request
  target \<open>r.RequestURI\<close> as the client sent it, the decoded path \<open>r.URL.Path\<close>, the
  results of \<open>r.URL.RequestURI()\<close> and \<open>r.URL.String()\<close>, the \<open>User-Agent\<close> header as
  \<open>r.Header.Get\<close> returns it, and whether \<open>r.TLS\<close> is set. Package \<open>net/url\<close>
  computes the path and the two strings from one URL; here they are separate fields,
  so a property proved for every request holds for every URL in particular, and the
  example requests give them the values that \<open>net/url\<close> gives (a \<open>?\<close> in the decoded
  path is \<open>%3F\<close> in both strings).
\<close>

record request =
  Method :: string
  Host :: string
  RequestURI :: string
  URL_Path :: string
  URL_RequestURI :: string
  URL_String :: string
  User_Agent :: string
  TLS :: bool

text \<open>
  The command-line flags the handlers depend on, as they stand when \<open>main\<close>
  registers the routes.
\<close>

record flags =
  httpsAddr :: string
  root :: string
  gitwebScript :: string
  gitwebFiles :: string
  gerritHost :: string
  buildbotBackend :: string
  buildbotHost :: string

text \<open>
  What the handlers observe of the machine: \<open>os.Lstat\<close> (an error, or whether the
  entry is a directory), \<open>ioutil.ReadFile\<close> (an error, or the bytes), the error
  template applied to an error by \<open>applyTemplate\<close>, and the output of the \<open>ip\<close>
  command. Errors are their messages.
\<close>

record world =
  os_Lstat :: "string \<Rightarrow> string + bool"
  ioutil_ReadFile :: "string \<Rightarrow> string + string"
  errorHtml_Execute :: "string \<Rightarrow> string"
  ip_Output :: string

text \<open>
  A handler is modelled by the effects it performs, in order: its calls to the file
  system, and what it does to its \<open>http.ResponseWriter\<close>, where the calls into
  \<open>net/http\<close> and the external backends are the constructors. The empty list is a
  handler that returns having written nothing. Log lines are left out.
  \<^item> \<open>CallLstat p\<close>, \<open>CallReadFile p\<close>: \<open>os.Lstat(p)\<close>, \<open>ioutil.ReadFile(p)\<close>;
  \<^item> \<open>WriteHeader code\<close>, \<open>Write body\<close>: the methods of the writer;
  \<^item> \<open>ExecutePage title subtitle content\<close>: \<open>pageHtml.Execute\<close> on these three;
  \<^item> \<open>HttpError msg code\<close>: \<open>http.Error(w, msg, code)\<close>;
  \<^item> \<open>HttpRedirect url code\<close>: \<open>http.Redirect(w, r, url, code)\<close>;
  \<^item> \<open>CgiServe script root\<close>: \<open>ServeHTTP\<close> of a \<open>cgi.Handler\<close>;
  \<^item> \<open>FileServe dir path\<close>: \<open>http.FileServer(http.Dir(dir))\<close> on a request path;
  \<^item> \<open>ProxyTo upstream\<close>: the reverse proxy of \<open>httputil\<close>;
  \<^item> \<open>GodocServe\<close>: the godoc handler, which is defined in another file;
  \<^item> \<open>MuxRedirect path\<close>: the redirect with status 301 that \<open>http.ServeMux\<close> issues;
  \<^item> \<open>Panic\<close>: a run-time panic, which ends the handler.
\<close>

datatype effect =
    CallLstat string
  | CallReadFile string
  | WriteHeader nat
  | Write string
  | ExecutePage string string string
  | HttpError string nat
  | HttpRedirect string nat
  | CgiServe string string
  | FileServe string string
  | ProxyTo string
  | GodocServe
  | MuxRedirect string
  | Panic

type_synonym handler = "request \<Rightarrow> effect list"

section \<open>Pages\<close>

definition servePage :: "string \<Rightarrow> string \<Rightarrow> string \<Rightarrow> effect list" where
  "servePage title subtitle content = [ExecutePage title subtitle content]"

definition serveError :: "world \<Rightarrow> string \<Rightarrow> string \<Rightarrow> effect list" where
  "serveError w relpath err =
     (let contents = errorHtml_Execute w err
      in WriteHeader 404 # servePage (''File '' @ relpath) [] contents)"

text \<open>
  The regular expression \<open><h1>([^<]+)</h1>\<close>. A match that starts at the head of the
  input is the literal \<open><h1>\<close>, then the bytes up to the next \<open><\<close> (at least one:
  the class excludes \<open><\<close> and the literal that follows starts with it, so the group
  can only end there), then the literal \<open></h1>\<close>. \<open>FindSubmatch\<close> returns the
  leftmost match as the list of the whole match and the group, or the empty list.
\<close>

definition h1TitlePattern_match_here :: "string \<Rightarrow> string list" where
  "h1TitlePattern_match_here s =
     (if prefix ''<h1>'' s then
        (let rest = drop 4 s;
             inner = takeWhile (\<lambda>c. c \<noteq> CHR ''<'') rest;
             after = dropWhile (\<lambda>c. c \<noteq> CHR ''<'') rest
         in if inner \<noteq> [] \<and> prefix ''</h1>'' after
            then [''<h1>'' @ inner @ ''</h1>'', inner] else [])
      else [])"

fun h1TitlePattern_FindSubmatch :: "string \<Rightarrow> string list" where
  "h1TitlePattern_FindSubmatch [] = []"
| "h1TitlePattern_FindSubmatch (c # s) =
     (let m = h1TitlePattern_match_here (c # s)
      in if m \<noteq> [] then m else h1TitlePattern_FindSubmatch s)"

definition serveFile :: "world \<Rightarrow> string \<Rightarrow> string \<Rightarrow> effect list" where
  "serveFile w relPath absPath =
     (case ioutil_ReadFile w absPath of
        Inl err \<Rightarrow> CallReadFile absPath # serveError w absPath err
      | Inr data \<Rightarrow>
          (let m = h1TitlePattern_FindSubmatch data;
               title = (if length m > 1 then m ! 1 else [])
           in CallReadFile absPath # servePage title [] data))"

section \<open>The fallback content handler\<close>

text \<open>
  \<open>mainHandler\<close>. \<open>req.URL.Path[1:]\<close> panics on the empty path. Every call to
  \<open>os.Lstat\<close> is recorded before what follows it.
\<close>

definition mainHandler :: "flags \<Rightarrow> world \<Rightarrow> handler" where
  "mainHandler fl w req =
     (case URL_Path req of
        [] \<Rightarrow> [Panic]
      | c # relPath \<Rightarrow>
          if strings_Contains relPath ''..'' then []
          else if strings_HasPrefix relPath ''gw/'' then
            [HttpRedirect (''http://camlistore.org/code/?p=camlistore.git;f='' @ drop 3 relPath @ '';hb=master'') 302]
          else
            (let absPath = filepath_Join [root fl, ''content'', relPath]
             in CallLstat absPath #
                (case os_Lstat w absPath of
                   Inl err \<Rightarrow> serveError w relPath err
                 | Inr isDir \<Rightarrow>
                     if isDir then
                       (let relPath2 = relPath @ ''/index.html'';
                            absPath2 = filepath_Join [root fl, ''content'', relPath2]
                        in CallLstat absPath2 #
                           (case os_Lstat w absPath2 of
                              Inl err \<Rightarrow> serveError w relPath2 err
                            | Inr isDir2 \<Rightarrow>
                                if \<not> isDir2 then serveFile w relPath2 absPath2 else []))
                     else serveFile w relPath absPath)))"

section \<open>The gitweb handlers\<close>

text \<open>\<open>gitwebHandler.ServeHTTP\<close>, on its two fields.\<close>

definition gitwebHandler :: "handler \<Rightarrow> handler \<Rightarrow> handler" where
  "gitwebHandler Cgi Static r =
     (if URL_Path r = ''/code/'' \<or> strings_HasPrefix (URL_Path r) ''/code/?''
      then Cgi r else Static r)"

text \<open>\<open>fixUpGitwebUrls.ServeHTTP\<close>, on the handler it wraps.\<close>

definition fixUpGitwebUrls :: "handler \<Rightarrow> handler" where
  "fixUpGitwebUrls h req =
     (let oldUrl = URL_String req;
          newUrl = strings_Replace oldUrl ''%3B'' '';''
      in if newUrl = oldUrl then h req else [HttpRedirect newUrl 302])"

section \<open>The URL and host filter\<close>

definition isBot :: "request \<Rightarrow> bool" where
  "isBot r =
     (let agent = User_Agent r
      in strings_Contains agent ''Baidu'' \<or> strings_Contains agent ''bingbot'' \<or>
         strings_Contains agent ''Ezooms'' \<or> strings_Contains agent ''Googlebot'')"

text \<open>\<open>noWwwHandler.ServeHTTP\<close>, on the handler it wraps.\<close>

definition noWwwHandler :: "handler \<Rightarrow> handler" where
  "noWwwHandler h r =
     (let ru = URL_RequestURI r
      in if strings_Contains ru ''/code/'' \<and> strings_Contains ru ''?'' \<and> isBot r
         then [HttpError ''bye'' 401]
         else (let host = strings_ToLower (Host r)
               in if host = ''www.camlistore.org''
                  then [HttpRedirect (''http://camlistore.org'' @ URL_RequestURI r) 302]
                  else h r))"

section \<open>The other handlers of main\<close>

text \<open>
  The regular expression \<open>^/issue/(\d+)$\<close>: the whole path is \<open>/issue/\<close> followed by
  one or more ASCII digits (\<open>$\<close> is the end of the text). \<open>FindStringSubmatch\<close>
  returns the whole match and the group, or the empty list for \<open>nil\<close>.
\<close>

definition isDigit :: "char \<Rightarrow> bool" where
  "isDigit c = (c \<in> set ''0123456789'')"

definition issueNum_FindStringSubmatch :: "string \<Rightarrow> string list" where
  "issueNum_FindStringSubmatch s =
     (if prefix ''/issue/'' s \<and> drop 7 s \<noteq> [] \<and> list_all isDigit (drop 7 s)
      then [s, drop 7 s] else [])"

definition issueRedirect :: handler where
  "issueRedirect r =
     (let m = issueNum_FindStringSubmatch (URL_Path r)
      in if m = [] then [HttpError ''Bad request'' 400]
         else [HttpRedirect (''https://code.google.com/p/camlistore/issues/detail?id='' @ m ! 1) 302])"

text \<open>
  The handler of \<open>/r/\<close>: the reverse proxy of the Gerrit host, behind the function
  that main wraps around it when \<open>-https\<close> is set.
\<close>

definition gerritUrl :: "flags \<Rightarrow> string" where
  "gerritUrl fl = ''http://'' @ gerritHost fl @ '':8000/''"

definition gerritHandler :: "flags \<Rightarrow> handler" where
  "gerritHandler fl req =
     (if httpsAddr fl \<noteq> [] then
        (if TLS req then [ProxyTo (gerritUrl fl)]
         else [HttpRedirect (''https://camlistore.org'' @ URL_RequestURI req) 302])
      else [ProxyTo (gerritUrl fl)])"

definition ipHandler :: "world \<Rightarrow> handler" where
  "ipHandler w r =
     (let str = ip_Output w
      in case strings_Index str ''inet '' of
           None \<Rightarrow> []
         | Some pos \<Rightarrow>
             (let str2 = drop (pos + 5) str
              in case strings_Index str2 ''/'' of
                   None \<Rightarrow> []
                 | Some pos2 \<Rightarrow> [Write (take pos2 str2)]))"

text \<open>The handlers that main takes from \<open>net/http\<close>.\<close>

definition http_FileServer :: "string \<Rightarrow> handler" where
  "http_FileServer dir r = [FileServe dir (URL_Path r)]"

definition http_StripPrefix :: "string \<Rightarrow> handler \<Rightarrow> handler" where
  "http_StripPrefix p h r =
     (if strings_HasPrefix (URL_Path r) p
      then h (r\<lparr>URL_Path := drop (length p) (URL_Path r)\<rparr>)
      else [HttpError ''404 page not found'' 404])"

definition http_RedirectHandler :: "string \<Rightarrow> nat \<Rightarrow> handler" where
  "http_RedirectHandler url code r = [HttpRedirect url code]"

definition http_NotFoundHandler :: handler where
  "http_NotFoundHandler r = [HttpError ''404 page not found'' 404]"

section \<open>The dispatcher\<close>

text \<open>
  \<open>http.ServeMux\<close>. A pattern that ends in a slash matches the paths it is a prefix
  of, any other pattern matches the path equal to it, and the longest matching pattern
  wins. A pattern \<open>/tree/\<close> also answers \<open>/tree\<close> with a redirect to itself, unless
  \<open>/tree\<close> is registered. A request whose path is not in canonical form is
  redirected to the canonical path (\<open>CONNECT\<close> requests apart), and the request
  target \<open>*\<close> is answered with status 400. Patterns that do not start with a slash
  start with a host name and are tried first, on the host followed by the path.
\<close>

type_synonym muxEntry = "string \<times> handler"

definition pathMatch :: "string \<Rightarrow> string \<Rightarrow> bool" where
  "pathMatch pattern path =
     (if pattern = [] then False
      else if last pattern \<noteq> CHR ''/'' then pattern = path
      else prefix pattern path)"

fun mux_match :: "muxEntry list \<Rightarrow> string \<Rightarrow> muxEntry option" where
  "mux_match [] path = None"
| "mux_match ((k, h) # es) path =
     (case mux_match es path of
        None \<Rightarrow> (if pathMatch k path then Some (k, h) else None)
      | Some (k2, h2) \<Rightarrow>
          (if pathMatch k path \<and> length k2 < length k then Some (k, h) else Some (k2, h2)))"

definition implicit_redirects :: "muxEntry list \<Rightarrow> muxEntry list" where
  "implicit_redirects es =
     concat (map (\<lambda>(k, h).
       if k \<noteq> [] \<and> last k = CHR ''/'' \<and> butlast k \<notin> set (map fst es)
       then [(butlast k, (\<lambda>r. [MuxRedirect (dropWhile (\<lambda>c. c \<noteq> CHR ''/'') k)]))]
       else []) es)"

definition ServeMux :: "muxEntry list \<Rightarrow> handler" where
  "ServeMux es r =
     (if RequestURI r = ''*'' then [WriteHeader 400]
      else if Method r \<noteq> ''CONNECT'' \<and> cleanPath (URL_Path r) \<noteq> URL_Path r
      then [MuxRedirect (cleanPath (URL_Path r))]
      else
        (let m = es @ implicit_redirects es;
             hosts = list_ex (\<lambda>(k, h). \<not> prefix ''/'' k) es;
             byHost = (if hosts then mux_match m (Host r @ URL_Path r) else None)
         in case byHost of
              Some (k, h) \<Rightarrow> h r
            | None \<Rightarrow>
                (case mux_match m (URL_Path r) of
                   Some (k, h) \<Rightarrow> h r
                 | None \<Rightarrow> http_NotFoundHandler r)))"

text \<open>
  The routes that \<open>main\<close> registers, in its order, and the handler it gives to both
  servers. The wrapper \<open>NewLoggingHandler\<close> is defined in another file; it is taken
  to hand the request to the handler it wraps. The CGI handlers are given by their
  script and root (the environment that \<open>main\<close> adds is left out). What stops the
  program while it starts (a template that does not parse, a build bot backend that is
  not a URL, a pattern registered twice) is outside the model.
\<close>

definition main_mux :: "flags \<Rightarrow> world \<Rightarrow> muxEntry list" where
  "main_mux fl w =
     [(''/favicon.ico'', http_FileServer (filepath_Join [root fl, ''static''])),
      (''/robots.txt'', http_FileServer (filepath_Join [root fl, ''static''])),
      (''/static/'', http_StripPrefix ''/static/'' (http_FileServer (filepath_Join [root fl, ''static'']))),
      (''/talks/'', http_StripPrefix ''/talks/'' (http_FileServer (filepath_Join [root fl, ''talks'']))),
      (''/pkg/'', (\<lambda>r. [GodocServe])),
      (''/cmd/'', (\<lambda>r. [GodocServe])),
      (''/r/'', gerritHandler fl),
      (''/debugz/ip'', ipHandler w),
      (''/test.cgi'', (\<lambda>r. [CgiServe (filepath_Join [root fl, ''test.cgi'']) ''/test.cgi''])),
      (''/test.cgi/foo'', (\<lambda>r. [CgiServe (filepath_Join [root fl, ''test.cgi'']) ''/test.cgi''])),
      (''/code'', http_RedirectHandler ''/code/'' 302)] @
     (if gitwebScript fl \<noteq> [] then
        [(''/code/'', fixUpGitwebUrls (gitwebHandler
            (\<lambda>r. [CgiServe (gitwebScript fl) ''/code/''])
            (http_StripPrefix ''/code/'' (http_FileServer (gitwebFiles fl)))))]
      else []) @
     [(''/issue/'', issueRedirect),
      (''/'', mainHandler fl w)] @
     (if buildbotHost fl \<noteq> [] \<and> buildbotBackend fl \<noteq> [] then
        [(strings_TrimRight (buildbotHost fl) ''/'' @ ''/'', (\<lambda>r. [ProxyTo (buildbotBackend fl)]))]
      else [])"

definition main_handler :: "flags \<Rightarrow> world \<Rightarrow> handler" where
  "main_handler fl w = noWwwHandler (ServeMux (main_mux fl w))"

section \<open>Notions used to state the properties\<close>



text \<open>
  An occurrence of the title pattern in \<open>data\<close> after the bytes \<open>pre\<close>, with the
  text \<open>t\<close> between the tags: \<open>t\<close> is not empty and has no \<open><\<close> in it.
\<close>

definition h1_occurrence :: "string \<Rightarrow> string \<Rightarrow> string \<Rightarrow> bool" where
  "h1_occurrence data pre t =
     (t \<noteq> [] \<and> CHR ''<'' \<notin> set t \<and> prefix (pre @ ''<h1>'' @ t @ ''</h1>'') data)"

text \<open>
  The title as the specification words it: the text between the first literal
  \<open><h1>\<close> of the file and the first \<open></h1>\<close> after it, and the empty string when
  there is no such pair. \<open>cut_at sep s\<close> cuts \<open>s\<close> around the first \<open>sep\<close>.
\<close>

fun cut_at :: "string \<Rightarrow> string \<Rightarrow> (string \<times> string) option" where
  "cut_at sep [] = (if sep = [] then Some ([], []) else None)"
| "cut_at sep (c # s) =
     (if prefix sep (c # s) then Some ([], drop (length sep) (c # s))
      else map_option (\<lambda>(before, after). (c # before, after)) (cut_at sep s))"

definition spec_first_h1_text :: "string \<Rightarrow> string" where
  "spec_first_h1_text data =
     (case cut_at ''<h1>'' data of
        None \<Rightarrow> []
      | Some (before, rest) \<Rightarrow>
          (case cut_at ''</h1>'' rest of
             None \<Rightarrow> []
           | Some (inner, after) \<Rightarrow> inner))"

section \<open>Example inputs\<close>

text \<open>
  A configuration with HTTPS and gitweb enabled and no build bot, a machine whose
  content directory holds \<open>foo/index.html\<close>, and a plain request for \<open>/\<close>.
\<close>

definition example_flags :: flags where
  "example_flags =
     \<lparr>httpsAddr = '':443'', root = ''/srv'', gitwebScript = ''/usr/lib/cgi-bin/gitweb.cgi'',
      gitwebFiles = ''/usr/share/gitweb/static'', gerritHost = ''gerrit'',
      buildbotBackend = [], buildbotHost = []\<rparr>"

definition example_world :: world where
  "example_world =
     \<lparr>os_Lstat = (\<lambda>p. if p = ''/srv/content/foo'' then Inr True
                      else if p = ''/srv/content/foo/index.html'' then Inr False
                      else Inl ''no such file or directory''),
      ioutil_ReadFile = (\<lambda>p. if p = ''/srv/content/foo/index.html''
                             then Inr ''<h1>Foo</h1><p>text</p>''
                             else Inl ''no such file or directory''),
      errorHtml_Execute = (\<lambda>err. ''<p>'' @ err @ ''</p>''),
      ip_Output = ''    inet 10.0.0.5/24 brd 10.0.0.255 scope global eth0''\<rparr>"

definition example_request :: request where
  "example_request =
     \<lparr>Method = ''GET'', Host = ''camlistore.org'', RequestURI = ''/'', URL_Path = ''/'',
      URL_RequestURI = ''/'', URL_String = ''/'', User_Agent = ''Mozilla/5.0'', TLS = False\<rparr>"

section \<open>The filter: bots and the secondary host\<close>

text \<open>
  Claim C1. A request whose request URI contains \<open>/code/\<close> and a \<open>?\<close>, and whose
  user agent contains one of Baidu, bingbot, Ezooms and Googlebot, is answered by
  \<open>http.Error\<close> with status 401 and by nothing else, whatever handler the filter wraps
  and whatever the host is: the wrapped handler, and so the CGI backend, is not
  invoked, and the request is not redirected. The same holds of the handler that
  \<open>main\<close> installs.
\<close>

theorem bot_request_unauthorized:
  assumes "strings_Contains (URL_RequestURI r) ''/code/''"
    and "strings_Contains (URL_RequestURI r) ''?''"
    and "b \<in> {''Baidu'', ''bingbot'', ''Ezooms'', ''Googlebot''}"
    and "strings_Contains (User_Agent r) b"
  shows "noWwwHandler h r = [HttpError ''bye'' 401] \<and>
         main_handler fl w r = [HttpError ''bye'' 401]"
proof -
  from assms(3,4) have "isBot r"
    by (auto simp: isBot_def)
  with assms(1,2) show ?thesis
    by (simp add: noWwwHandler_def main_handler_def)
qed

theorem bot_request_unauthorized_witness:
  "strings_Contains ''/code/?p=camlistore.git;a=log'' ''/code/'' \<and>
   strings_Contains ''/code/?p=camlistore.git;a=log'' ''?'' \<and>
   strings_Contains ''Mozilla/5.0 (compatible; Baiduspider/2.0)'' ''Baidu'' \<and>
   main_handler example_flags example_world
     (example_request\<lparr>Host := ''www.camlistore.org'',
        URL_Path := ''/code/'',
        URL_RequestURI := ''/code/?p=camlistore.git;a=log'',
        User_Agent := ''Mozilla/5.0 (compatible; Baiduspider/2.0)''\<rparr>)
     = [HttpError ''bye'' 401]"
proof -
  let ?r = "example_request\<lparr>Host := ''www.camlistore.org'',
        URL_Path := ''/code/'',
        URL_RequestURI := ''/code/?p=camlistore.git;a=log'',
        User_Agent := ''Mozilla/5.0 (compatible; Baiduspider/2.0)''\<rparr>"
  have a: "strings_Contains (URL_RequestURI ?r) ''/code/''" by simp
  have b: "strings_Contains (URL_RequestURI ?r) ''?''" by simp
  have c: "''Baidu'' \<in> {''Baidu'', ''bingbot'', ''Ezooms'', ''Googlebot''}" by simp
  have d: "strings_Contains (User_Agent ?r) ''Baidu''" by simp
  from bot_request_unauthorized [OF a b c d, of undefined example_flags example_world] a b d
  show ?thesis by simp
qed



section \<open>The code review route and the issue route\<close>






section \<open>The gitweb URL fixer\<close>

text \<open>Facts about \<open>strings.Contains\<close>, \<open>strings.Replace\<close> and \<open>strings.Join\<close>.\<close>

lemma Contains_sublist: "strings_Contains s sub \<longleftrightarrow> sublist sub s"
  by (induction s) (auto simp: sublist_Cons_right)

lemma Replace_same_iff:
  "n \<noteq> c0 \<Longrightarrow>
   strings_Replace s (c0 # old) (n # new) = s \<longleftrightarrow> \<not> strings_Contains s (c0 # old)"
  by (induction s "c0 # old" "n # new" rule: strings_Replace.induct) auto

lemma Join_Cons: "ps \<noteq> [] \<Longrightarrow> strings_Join (p # ps) sep = p @ sep @ strings_Join ps sep"
  by (cases ps) auto

lemma Replace_pieces:
  "old \<noteq> [] \<Longrightarrow>
   \<exists>ps. ps \<noteq> [] \<and> s = strings_Join ps old \<and> (\<forall>p\<in>set ps. \<not> strings_Contains p old) \<and>
        strings_Replace s old new = strings_Join ps new"
proof (induction s old new rule: strings_Replace.induct)
  case (1 old new)
  then have "[[]] \<noteq> [] \<and> [] = strings_Join [[]] old \<and> (\<forall>p\<in>set [[]]. \<not> strings_Contains p old) \<and>
        strings_Replace [] old new = strings_Join [[]] new"
    by simp
  then show ?case by blast
next
  case (2 c s old new)
  show ?case
  proof (cases "prefix old (c # s)")
    case True
    with 2 obtain ps where ps: "ps \<noteq> []" "drop (length old) (c # s) = strings_Join ps old"
      "\<forall>p\<in>set ps. \<not> strings_Contains p old"
      "strings_Replace (drop (length old) (c # s)) old new = strings_Join ps new"
      by auto
    from True have cs: "c # s = old @ drop (length old) (c # s)"
      by (metis append_eq_conv_conj prefix_def)
    let ?qs = "[] # ps"
    have "c # s = strings_Join ?qs old"
      using cs ps(1,2) by (simp add: Join_Cons)
    moreover have "\<forall>p\<in>set ?qs. \<not> strings_Contains p old"
      using ps(3) "2.prems" by simp
    moreover have "strings_Replace (c # s) old new = strings_Join ?qs new"
      using True "2.prems" ps(1,4) by (simp add: Join_Cons)
    ultimately show ?thesis by blast
  next
    case False
    with 2 obtain ps where ps: "ps \<noteq> []" "s = strings_Join ps old"
      "\<forall>p\<in>set ps. \<not> strings_Contains p old"
      "strings_Replace s old new = strings_Join ps new"
      by auto
    from ps(1) obtain p rest where pr: "ps = p # rest"
      by (cases ps) auto
    have pre: "prefix p s"
      using ps(2) pr by (cases rest) auto
    let ?qs = "(c # p) # rest"
    have "c # s = strings_Join ?qs old"
      using ps(2) pr by (cases rest) auto
    moreover have "\<not> strings_Contains (c # p) old"
    proof -
      have "\<not> prefix old (c # p)"
        using False pre by (meson Cons_prefix_Cons prefix_order.order_trans)
      with ps(3) pr show ?thesis by simp
    qed
    then have "\<forall>q\<in>set ?qs. \<not> strings_Contains q old"
      using ps(3) pr by simp
    moreover have "strings_Replace (c # s) old new = strings_Join ?qs new"
      using False ps(4) pr by (cases rest) auto
    ultimately show ?thesis by blast
  qed
qed


text \<open>
  Claim C4. When the URL string of the request contains \<open>%3B\<close>, the wrapper answers
  with a redirect, status 302, and does not invoke the handler it wraps. The target is
  the URL string after \<open>strings.Replace\<close>: the URL string is a sequence of pieces free
  of \<open>%3B\<close> with \<open>%3B\<close> between neighbours, and the target is the same pieces
  with \<open>;\<close> between neighbours, so every occurrence is replaced and nothing else
  changes. When the URL string contains no \<open>%3B\<close>, the wrapper does what the wrapped
  handler does on the same request.
\<close>

theorem gitweb_url_fixup:
  "(strings_Contains (URL_String r) ''%3B'' \<longrightarrow>
      fixUpGitwebUrls h r = [HttpRedirect (strings_Replace (URL_String r) ''%3B'' '';'') 302] \<and>
      (\<exists>ps. URL_String r = strings_Join ps ''%3B'' \<and>
            (\<forall>p\<in>set ps. \<not> strings_Contains p ''%3B'') \<and>
            strings_Replace (URL_String r) ''%3B'' '';'' = strings_Join ps '';'')) \<and>
   (\<not> strings_Contains (URL_String r) ''%3B'' \<longrightarrow> fixUpGitwebUrls h r = h r)"
proof -
  have same: "strings_Replace (URL_String r) ''%3B'' '';'' = URL_String r \<longleftrightarrow>
      \<not> strings_Contains (URL_String r) ''%3B''"
    by (rule Replace_same_iff) simp
  have pieces: "\<exists>ps. URL_String r = strings_Join ps ''%3B'' \<and>
            (\<forall>p\<in>set ps. \<not> strings_Contains p ''%3B'') \<and>
            strings_Replace (URL_String r) ''%3B'' '';'' = strings_Join ps '';''"
    using Replace_pieces [of "''%3B''" "URL_String r" "'';''"] by blast
  show ?thesis
    using same pieces by (simp add: fixUpGitwebUrls_def Let_def)
qed

theorem gitweb_url_fixup_witness:
  "strings_Contains ''/code/?p=x%3Bf=y'' ''%3B'' \<and>
   fixUpGitwebUrls (\<lambda>r. [CgiServe ''/usr/lib/cgi-bin/gitweb.cgi'' ''/code/''])
       (example_request\<lparr>URL_Path := ''/code/'', URL_String := ''/code/?p=x%3Bf=y''\<rparr>)
     = [HttpRedirect ''/code/?p=x;f=y'' 302] \<and>
   \<not> strings_Contains ''/code/?p=x;f=y'' ''%3B'' \<and>
   fixUpGitwebUrls (\<lambda>r. [CgiServe ''/usr/lib/cgi-bin/gitweb.cgi'' ''/code/''])
       (example_request\<lparr>URL_Path := ''/code/'', URL_String := ''/code/?p=x;f=y''\<rparr>)
     = [CgiServe ''/usr/lib/cgi-bin/gitweb.cgi'' ''/code/'']"
proof -
  let ?h = "\<lambda>r::request. [CgiServe ''/usr/lib/cgi-bin/gitweb.cgi'' ''/code/'']"
  let ?r1 = "example_request\<lparr>URL_Path := ''/code/'', URL_String := ''/code/?p=x%3Bf=y''\<rparr>"
  let ?r2 = "example_request\<lparr>URL_Path := ''/code/'', URL_String := ''/code/?p=x;f=y''\<rparr>"
  have a: "strings_Contains (URL_String ?r1) ''%3B''" by simp
  have b: "\<not> strings_Contains (URL_String ?r2) ''%3B''" by simp
  have v: "strings_Replace ''/code/?p=x%3Bf=y'' ''%3B'' '';'' = ''/code/?p=x;f=y''" by simp
  from gitweb_url_fixup [of ?r1 ?h] a v
  have c: "fixUpGitwebUrls ?h ?r1 = [HttpRedirect ''/code/?p=x;f=y'' 302]"
    by simp
  from gitweb_url_fixup [of ?r2 ?h] b
  have d: "fixUpGitwebUrls ?h ?r2 = [CgiServe ''/usr/lib/cgi-bin/gitweb.cgi'' ''/code/'']"
    by simp
  from a b c d show ?thesis by simp
qed

section \<open>The routes of the dispatcher\<close>






















section \<open>The page title\<close>

text \<open>
  The matcher against the occurrences of the pattern: a match at the head of the input
  is an occurrence after no bytes, and \<open>FindSubmatch\<close> finds the leftmost one.
\<close>

lemma until_byte:
  "x \<notin> set t \<Longrightarrow> takeWhile (\<lambda>c. c \<noteq> x) (t @ x # r) = t"
  "x \<notin> set t \<Longrightarrow> dropWhile (\<lambda>c. c \<noteq> x) (t @ x # r) = x # r"
  by (induction t) auto

lemma h1_occurrence_here:
  assumes "h1_occurrence s [] t"
  shows "h1TitlePattern_match_here s = [''<h1>'' @ t @ ''</h1>'', t]"
proof -
  from assms obtain post where s: "s = ''<h1>'' @ t @ ''</h1>'' @ post"
    and t: "t \<noteq> []" "CHR ''<'' \<notin> set t"
    by (auto simp: h1_occurrence_def prefix_def)
  have tw: "takeWhile (\<lambda>c. c \<noteq> CHR ''<'') (t @ ''</h1>'' @ post) = t"
    using t(2) by (simp add: until_byte)
  have dw: "dropWhile (\<lambda>c. c \<noteq> CHR ''<'') (t @ ''</h1>'' @ post) = ''</h1>'' @ post"
    using t(2) by (simp add: until_byte)
  show ?thesis
    unfolding h1TitlePattern_match_here_def s using tw dw t(1) by (simp add: Let_def)
qed

lemma match_here_occurrence:
  assumes "h1TitlePattern_match_here s \<noteq> []"
  shows "\<exists>t. h1_occurrence s [] t"
proof -
  define inner where "inner = takeWhile (\<lambda>c. c \<noteq> CHR ''<'') (drop 4 s)"
  define after where "after = dropWhile (\<lambda>c. c \<noteq> CHR ''<'') (drop 4 s)"
  have m: "h1TitlePattern_match_here s =
      (if prefix ''<h1>'' s then
         (if inner \<noteq> [] \<and> prefix ''</h1>'' after then [''<h1>'' @ inner @ ''</h1>'', inner] else [])
       else [])"
    unfolding h1TitlePattern_match_here_def inner_def after_def Let_def ..
  from assms m have p: "prefix ''<h1>'' s"
    by presburger
  from assms m p have i: "inner \<noteq> []" and a: "prefix ''</h1>'' after"
    by presburger+
  from p obtain rest where rest: "s = ''<h1>'' @ rest"
    unfolding prefix_def by blast
  then have "drop 4 s = rest"
    by simp
  then have ia: "rest = inner @ after"
    unfolding inner_def after_def by simp
  from a obtain post where "after = ''</h1>'' @ post"
    unfolding prefix_def by blast
  with rest ia have "s = (''<h1>'' @ inner @ ''</h1>'') @ post"
    by simp
  then have "prefix ([] @ ''<h1>'' @ inner @ ''</h1>'') s"
    unfolding prefix_def by auto
  moreover have "CHR ''<'' \<notin> set inner"
    unfolding inner_def by (auto dest: set_takeWhileD)
  ultimately have "h1_occurrence s [] inner"
    using i unfolding h1_occurrence_def by blast
  then show ?thesis ..
qed

lemma h1_occurrence_Cons:
  "h1_occurrence (c # s) pre t \<longleftrightarrow>
     (pre = [] \<and> h1_occurrence (c # s) [] t) \<or> (\<exists>pre2. pre = c # pre2 \<and> h1_occurrence s pre2 t)"
  by (cases pre) (auto simp: h1_occurrence_def)

lemma h1_occurrence_Nil: "\<not> h1_occurrence [] pre t"
  by (auto simp: h1_occurrence_def)

lemma FindSubmatch_none:
  "h1TitlePattern_FindSubmatch data = [] \<longleftrightarrow> (\<forall>pre t. \<not> h1_occurrence data pre t)"
proof (induction data)
  case Nil
  then show ?case by (simp add: h1_occurrence_Nil)
next
  case (Cons c s)
  show ?case
  proof (cases "h1TitlePattern_match_here (c # s) = []")
    case True
    then have "\<not> h1_occurrence (c # s) [] t" for t
      using h1_occurrence_here by fastforce
    then have "(\<forall>pre t. \<not> h1_occurrence (c # s) pre t) \<longleftrightarrow> (\<forall>pre t. \<not> h1_occurrence s pre t)"
      by (subst h1_occurrence_Cons) auto
    with True Cons show ?thesis by (simp add: Let_def)
  next
    case False
    then obtain t where "h1_occurrence (c # s) [] t"
      using match_here_occurrence by blast
    with False show ?thesis by (auto simp: Let_def)
  qed
qed

lemma FindSubmatch_leftmost:
  assumes "h1_occurrence data pre t"
    and "\<forall>pre2 t2. h1_occurrence data pre2 t2 \<longrightarrow> length pre \<le> length pre2"
  shows "h1TitlePattern_FindSubmatch data = [''<h1>'' @ t @ ''</h1>'', t]"
  using assms
proof (induction data arbitrary: pre)
  case Nil
  then show ?case by (simp add: h1_occurrence_Nil)
next
  case (Cons c s)
  show ?case
  proof (cases "h1TitlePattern_match_here (c # s) = []")
    case True
    then have no: "\<not> h1_occurrence (c # s) [] t2" for t2
      using h1_occurrence_here by fastforce
    with Cons.prems(1) obtain pre2 where pre: "pre = c # pre2" and occ: "h1_occurrence s pre2 t"
      by (subst (asm) h1_occurrence_Cons) auto
    have "length pre2 \<le> length q" if "h1_occurrence s q t2" for q t2
    proof -
      from that have "h1_occurrence (c # s) (c # q) t2"
        by (subst h1_occurrence_Cons) simp
      with Cons.prems(2) pre show ?thesis by fastforce
    qed
    with Cons.IH [OF occ] have "h1TitlePattern_FindSubmatch s = [''<h1>'' @ t @ ''</h1>'', t]"
      by blast
    with True show ?thesis by (simp add: Let_def)
  next
    case False
    then obtain t0 where t0: "h1_occurrence (c # s) [] t0"
      using match_here_occurrence by blast
    with Cons.prems(2) have "pre = []" by fastforce
    with Cons.prems(1) have "h1TitlePattern_match_here (c # s) = [''<h1>'' @ t @ ''</h1>'', t]"
      using h1_occurrence_here by blast
    then show ?thesis by (simp add: Let_def)
  qed
qed

text \<open>
  Claim C9, as amended. For a content file that is read, the page title is the text of
  the leftmost occurrence in the file bytes of \<open><h1>\<close>, one or more bytes other than
  \<open><\<close>, and \<open></h1>\<close>; it is the empty string when the file has no such
  occurrence. The page content is the file bytes.
\<close>

theorem title_is_leftmost_h1:
  assumes "ioutil_ReadFile w absPath = Inr data"
  shows "(h1_occurrence data pre t \<and>
          (\<forall>pre2 t2. h1_occurrence data pre2 t2 \<longrightarrow> length pre \<le> length pre2) \<longrightarrow>
            serveFile w relPath absPath = [CallReadFile absPath, ExecutePage t [] data]) \<and>
         ((\<forall>pre2 t2. \<not> h1_occurrence data pre2 t2) \<longrightarrow>
            serveFile w relPath absPath = [CallReadFile absPath, ExecutePage [] [] data])"
proof (intro conjI impI)
  assume "h1_occurrence data pre t \<and>
          (\<forall>pre2 t2. h1_occurrence data pre2 t2 \<longrightarrow> length pre \<le> length pre2)"
  then have "h1TitlePattern_FindSubmatch data = [''<h1>'' @ t @ ''</h1>'', t]"
    using FindSubmatch_leftmost by blast
  with assms show "serveFile w relPath absPath = [CallReadFile absPath, ExecutePage t [] data]"
    by (simp add: serveFile_def servePage_def)
next
  assume "\<forall>pre2 t2. \<not> h1_occurrence data pre2 t2"
  then have "h1TitlePattern_FindSubmatch data = []"
    by (simp add: FindSubmatch_none)
  with assms show "serveFile w relPath absPath = [CallReadFile absPath, ExecutePage [] [] data]"
    by (simp add: serveFile_def servePage_def)
qed

text \<open>
  The claim as stated fails: in \<open><h1><i>A</i></h1><h1>B</h1>\<close> the first
  \<open><h1>\<close> and the \<open></h1>\<close> after it enclose \<open><i>A</i>\<close>, and the title served
  is \<open>B\<close>, taken from the second heading.
\<close>

theorem title_first_h1_counterexample:
  "spec_first_h1_text ''<h1><i>A</i></h1><h1>B</h1>'' = ''<i>A</i>'' \<and>
   serveFile (example_world\<lparr>ioutil_ReadFile := (\<lambda>p. Inr ''<h1><i>A</i></h1><h1>B</h1>'')\<rparr>)
       ''foo/index.html'' ''/srv/content/foo/index.html''
     = [CallReadFile ''/srv/content/foo/index.html'',
        ExecutePage ''B'' [] ''<h1><i>A</i></h1><h1>B</h1>'']"
  by (simp add: spec_first_h1_text_def serveFile_def servePage_def
      h1TitlePattern_match_here_def)

theorem title_is_leftmost_h1_witness:
  "ioutil_ReadFile example_world ''/srv/content/foo/index.html'' = Inr ''<h1>Foo</h1><p>text</p>'' \<and>
   h1_occurrence ''<h1>Foo</h1><p>text</p>'' [] ''Foo'' \<and>
   serveFile example_world ''foo/index.html'' ''/srv/content/foo/index.html''
     = [CallReadFile ''/srv/content/foo/index.html'',
        ExecutePage ''Foo'' [] ''<h1>Foo</h1><p>text</p>''] \<and>
   (\<forall>pre2 t2. \<not> h1_occurrence ''<h1><b>T</b></h1>'' pre2 t2) \<and>
   serveFile (example_world\<lparr>ioutil_ReadFile := (\<lambda>p. Inr ''<h1><b>T</b></h1>'')\<rparr>)
       ''foo/index.html'' ''/srv/content/foo/index.html''
     = [CallReadFile ''/srv/content/foo/index.html'', ExecutePage [] [] ''<h1><b>T</b></h1>'']"
proof -
  let ?abs = "''/srv/content/foo/index.html''"
  let ?w2 = "example_world\<lparr>ioutil_ReadFile := (\<lambda>p. Inr ''<h1><b>T</b></h1>'')\<rparr>"
  have r1: "ioutil_ReadFile example_world ?abs = Inr ''<h1>Foo</h1><p>text</p>''"
    by (simp add: example_world_def)
  have o1: "h1_occurrence ''<h1>Foo</h1><p>text</p>'' [] ''Foo''"
    by (simp add: h1_occurrence_def)
  have l1: "\<forall>pre2 t2. h1_occurrence ''<h1>Foo</h1><p>text</p>'' pre2 t2 \<longrightarrow> length ([]::string) \<le> length pre2"
    by simp
  have r2: "ioutil_ReadFile ?w2 ?abs = Inr ''<h1><b>T</b></h1>''"
    by simp
  have n2: "\<forall>pre2 t2. \<not> h1_occurrence ''<h1><b>T</b></h1>'' pre2 t2"
    unfolding FindSubmatch_none [symmetric] by (simp add: h1TitlePattern_match_here_def)
  from title_is_leftmost_h1 [OF r1, of "[]" "''Foo''" "''foo/index.html''"] o1 l1
  have a: "serveFile example_world ''foo/index.html'' ?abs
     = [CallReadFile ?abs, ExecutePage ''Foo'' [] ''<h1>Foo</h1><p>text</p>'']"
    by blast
  from title_is_leftmost_h1 [OF r2, of "[]" "[]" "''foo/index.html''"] n2
  have b: "serveFile ?w2 ''foo/index.html'' ?abs
     = [CallReadFile ?abs, ExecutePage [] [] ''<h1><b>T</b></h1>'']"
    by blast
  from r1 o1 a n2 b show ?thesis by blast
qed

section \<open>The fallback content handler and the content root\<close>

text \<open>
  Facts about cutting a path at its slashes and about \<open>path.Clean\<close>: a doubled
  slash changes nothing, and a relative path without a \<open>..\<close> element, joined to
  the content root, stays below the content root.
\<close>

lemma split_sep_not_Nil: "split_sep s \<noteq> []"
  by (induction s) (auto split: list.splits)

lemma split_sep_append: "split_sep (a @ CHR ''/'' # b) = split_sep a @ split_sep b"
proof (induction a)
  case Nil
  then show ?case by simp
next
  case (Cons c a)
  then show ?case
    using split_sep_not_Nil [of a] by (cases "split_sep a") auto
qed

lemma split_sep_no_slash: "CHR ''/'' \<notin> set s \<Longrightarrow> split_sep s = [s]"
  by (induction s) auto

lemma split_sep_hd_prefix: "split_sep s = x # xs \<Longrightarrow> prefix x s"
proof (induction s arbitrary: x xs)
  case Nil
  then show ?case by simp
next
  case (Cons c s)
  show ?case
  proof (cases "c = CHR ''/''")
    case True
    with Cons.prems show ?thesis by simp
  next
    case False
    obtain y ys where y: "split_sep s = y # ys"
      using split_sep_not_Nil [of s] by (cases "split_sep s") auto
    with Cons.IH have "prefix y s" by blast
    with Cons.prems False y show ?thesis by auto
  qed
qed

lemma split_sep_elem_Contains:
  "seg \<in> set (split_sep s) \<Longrightarrow> seg \<noteq> [] \<Longrightarrow> strings_Contains s seg"
proof (induction s)
  case Nil
  then show ?case by simp
next
  case (Cons c s)
  show ?case
  proof (cases "c = CHR ''/''")
    case True
    with Cons show ?thesis by auto
  next
    case False
    obtain y ys where y: "split_sep s = y # ys"
      using split_sep_not_Nil [of s] by (cases "split_sep s") auto
    then have p: "prefix y s"
      by (rule split_sep_hd_prefix)
    from Cons.prems(1) False y have "seg = c # y \<or> seg \<in> set ys"
      by simp
    then show ?thesis
    proof
      assume "seg = c # y"
      with p show ?thesis by simp
    next
      assume "seg \<in> set ys"
      with y Cons.IH Cons.prems(2) show ?thesis by simp
    qed
  qed
qed

lemma foldl_clean_step_no_dotdot:
  "''..'' \<notin> set segs \<Longrightarrow>
   foldl (clean_step rooted) out segs = out @ filter (\<lambda>s. s \<noteq> [] \<and> s \<noteq> ''.'') segs"
  by (induction segs arbitrary: out) (auto simp: clean_step_def)

lemma Join_append:
  "xs \<noteq> [] \<Longrightarrow> ys \<noteq> [] \<Longrightarrow>
   strings_Join (xs @ ys) sep = strings_Join xs sep @ sep @ strings_Join ys sep"
proof (induction xs sep rule: strings_Join.induct)
  case (1 sep)
  then show ?case by simp
next
  case (2 x sep)
  then show ?case by (cases ys) auto
next
  case (3 x y zs sep)
  then show ?case by simp
qed


lemma rooted_append: "a \<noteq> [] \<Longrightarrow> prefix ''/'' (a @ b) = prefix ''/'' a"
  by (cases a) auto

lemma clean_elems_append:
  "a \<noteq> [] \<Longrightarrow>
   clean_elems (a @ CHR ''/'' # b) = foldl (clean_step (prefix ''/'' a)) (clean_elems a) (split_sep b)"
  by (simp add: clean_elems_def split_sep_append rooted_append)


lemma Join_three:
  "filepath_Join [r, ''content'', rel] =
     path_Clean ((if r = [] then ''content'' else r @ ''/content'') @ CHR ''/'' # rel)"
  by (simp add: filepath_Join_def)

lemma Join_two:
  "filepath_Join [r, ''content''] = path_Clean (if r = [] then ''content'' else r @ ''/content'')"
  by (simp add: filepath_Join_def)


lemma content_elems:
  "clean_elems (if r = [] then ''content'' else r @ ''/content'') =
     (if r = [] then [] else clean_elems r) @ [''content'']"
proof (cases "r = []")
  case True
  then show ?thesis
    by (simp add: clean_elems_def clean_step_def)
next
  case False
  then show ?thesis
    using clean_elems_append [of r "''content''"] by (simp add: clean_step_def)
qed

lemma Join_snoc_not_Nil: "x \<noteq> [] \<Longrightarrow> strings_Join (xs @ [x]) sep \<noteq> []"
  by (induction xs sep rule: strings_Join.induct) auto

lemma content_path_under:
  assumes "''..'' \<notin> set (split_sep rel)"
  shows "filepath_Join [r, ''content'', rel] = filepath_Join [r, ''content''] \<or>
         prefix (filepath_Join [r, ''content''] @ ''/'') (filepath_Join [r, ''content'', rel])"
proof -
  define X where "X = (if r = [] then ''content'' else r @ ''/content'')"
  define E where "E = clean_elems X"
  define F where "F = filter (\<lambda>s. s \<noteq> [] \<and> s \<noteq> ''.'') (split_sep rel)"
  define R where "R = (if prefix ''/'' X then ''/'' else [])"
  have X: "X \<noteq> []"
    by (simp add: X_def)
  have E: "E = (if r = [] then [] else clean_elems r) @ [''content'']"
    unfolding E_def X_def by (rule content_elems)
  then have En: "E \<noteq> []" and Jn: "strings_Join E ''/'' \<noteq> []"
    using Join_snoc_not_Nil [of "''content''"] by auto
  have root: "path_Clean X = R @ strings_Join E ''/''"
    using X Jn by (simp add: path_Clean_def E_def R_def Let_def)
  have "clean_elems (X @ CHR ''/'' # rel) = E @ F"
    using clean_elems_append [OF X] foldl_clean_step_no_dotdot [OF assms]
    by (simp add: E_def F_def)
  moreover have J: "strings_Join (E @ F) ''/'' =
      strings_Join E ''/'' @ (if F = [] then [] else ''/'' @ strings_Join F ''/'')"
    using Join_append [OF En, of F] by simp
  ultimately have sub: "path_Clean (X @ CHR ''/'' # rel) = R @ strings_Join (E @ F) ''/''"
    using X Jn by (simp add: path_Clean_def R_def Let_def rooted_append)
  have j3: "filepath_Join [r, ''content'', rel] = R @ strings_Join (E @ F) ''/''"
    using sub unfolding Join_three X_def by simp
  have j2: "filepath_Join [r, ''content''] = R @ strings_Join E ''/''"
    using root unfolding Join_two X_def by simp
  from j3 j2 J show ?thesis
    by (cases "F = []") simp_all
qed


lemma no_dotdot_elems:
  assumes "\<not> strings_Contains rel ''..''"
  shows "''..'' \<notin> set (split_sep rel)" and "''..'' \<notin> set (split_sep (rel @ ''/index.html''))"
proof -
  show a: "''..'' \<notin> set (split_sep rel)"
    using assms split_sep_elem_Contains [of "''..''" rel] by auto
  have "split_sep (rel @ ''/index.html'') = split_sep rel @ [''index.html'']"
    using split_sep_append [of rel "''index.html''"] by simp
  with a show "''..'' \<notin> set (split_sep (rel @ ''/index.html''))"
    by simp
qed

lemma mainHandler_fs_paths:
  assumes "CallLstat p \<in> set (mainHandler fl w r) \<or> CallReadFile p \<in> set (mainHandler fl w r)"
  shows "\<exists>rel. \<not> strings_Contains rel ''..'' \<and>
           (p = filepath_Join [root fl, ''content'', rel] \<or>
            p = filepath_Join [root fl, ''content'', rel @ ''/index.html''])"
proof (cases "URL_Path r")
  case Nil
  with assms show ?thesis
    by (simp add: mainHandler_def)
next
  case (Cons c rel)
  show ?thesis
  proof (cases "strings_Contains rel ''..''")
    case True
    with Cons assms show ?thesis
      by (simp add: mainHandler_def)
  next
    case False
    from assms Cons False
    have "p = filepath_Join [root fl, ''content'', rel] \<or>
          p = filepath_Join [root fl, ''content'', rel @ ''/index.html'']"
      by (auto simp: mainHandler_def serveFile_def serveError_def servePage_def Let_def
          split: if_splits sum.splits)
    with False show ?thesis by blast
  qed
qed

text \<open>
  Claim C3. When the request path without its first byte contains \<open>..\<close>, the
  fallback handler has no effect at all: it writes no response and calls neither
  \<open>os.Lstat\<close> nor \<open>ioutil.ReadFile\<close>. And on any request, every path the handler
  passes to \<open>os.Lstat\<close> or to \<open>ioutil.ReadFile\<close> is the content root
  \<open>filepath.Join(root, "content")\<close> or that root, a slash, and more: no file outside
  the content root is named.
\<close>

theorem traversal_refused:
  "(URL_Path r = c # relPath \<and> strings_Contains relPath ''..'' \<longrightarrow> mainHandler fl w r = []) \<and>
   (\<forall>p. CallLstat p \<in> set (mainHandler fl w r) \<or> CallReadFile p \<in> set (mainHandler fl w r) \<longrightarrow>
        p = filepath_Join [root fl, ''content''] \<or>
        prefix (filepath_Join [root fl, ''content''] @ ''/'') p)"
proof (intro conjI impI allI)
  assume "URL_Path r = c # relPath \<and> strings_Contains relPath ''..''"
  then show "mainHandler fl w r = []"
    by (simp add: mainHandler_def)
next
  fix p
  assume "CallLstat p \<in> set (mainHandler fl w r) \<or> CallReadFile p \<in> set (mainHandler fl w r)"
  then obtain rel where rel: "\<not> strings_Contains rel ''..''"
    and p: "p = filepath_Join [root fl, ''content'', rel] \<or>
            p = filepath_Join [root fl, ''content'', rel @ ''/index.html'']"
    using mainHandler_fs_paths by blast
  from p show "p = filepath_Join [root fl, ''content''] \<or>
        prefix (filepath_Join [root fl, ''content''] @ ''/'') p"
    using content_path_under [OF no_dotdot_elems(1) [OF rel], of "root fl"]
      content_path_under [OF no_dotdot_elems(2) [OF rel], of "root fl"]
    by auto
qed

lemma example_paths:
  "filepath_Join [root example_flags, ''content''] = ''/srv/content''"
  "filepath_Join [root example_flags, ''content'', ''foo/''] = ''/srv/content/foo''"
  "filepath_Join [root example_flags, ''content'', ''foo/index.html''] = ''/srv/content/foo/index.html''"
  "filepath_Join [root example_flags, ''content'', ''foo//index.html''] = ''/srv/content/foo/index.html''"
  "filepath_Join [root example_flags, ''content'', ''nonexistent/page''] = ''/srv/content/nonexistent/page''"
  by (simp_all add: example_flags_def filepath_Join_def path_Clean_def clean_elems_def clean_step_def)

lemma example_foo:
  "mainHandler example_flags example_world (example_request\<lparr>URL_Path := ''/foo/''\<rparr>) =
     [CallLstat ''/srv/content/foo'', CallLstat ''/srv/content/foo/index.html'',
      CallReadFile ''/srv/content/foo/index.html'',
      ExecutePage ''Foo'' [] ''<h1>Foo</h1><p>text</p>'']"
  by (simp add: mainHandler_def strings_HasPrefix_def example_paths Let_def
      example_world_def serveFile_def servePage_def h1TitlePattern_match_here_def)

theorem traversal_refused_witness:
  "strings_Contains ''docs/../../etc/passwd'' ''..'' \<and>
   mainHandler example_flags example_world
     (example_request\<lparr>URL_Path := ''/docs/../../etc/passwd''\<rparr>) = [] \<and>
   CallReadFile ''/srv/content/foo/index.html''
     \<in> set (mainHandler example_flags example_world (example_request\<lparr>URL_Path := ''/foo/''\<rparr>)) \<and>
   filepath_Join [root example_flags, ''content''] = ''/srv/content'' \<and>
   prefix (''/srv/content'' @ ''/'') ''/srv/content/foo/index.html''"
proof -
  let ?r1 = "example_request\<lparr>URL_Path := ''/docs/../../etc/passwd''\<rparr>"
  let ?r2 = "example_request\<lparr>URL_Path := ''/foo/''\<rparr>"
  have c: "strings_Contains ''docs/../../etc/passwd'' ''..''" by simp
  have a: "mainHandler example_flags example_world ?r1 = []"
    using traversal_refused [of ?r1 "CHR ''/''" "''docs/../../etc/passwd''"
        example_flags example_world] c
    by simp
  have m: "CallReadFile ''/srv/content/foo/index.html''
     \<in> set (mainHandler example_flags example_world ?r2)"
    by (simp add: example_foo)
  have "''/srv/content/foo/index.html'' = filepath_Join [root example_flags, ''content''] \<or>
        prefix (filepath_Join [root example_flags, ''content''] @ ''/'') ''/srv/content/foo/index.html''"
    using traversal_refused [of ?r2 undefined undefined example_flags example_world] m
    by blast
  then have "prefix (''/srv/content'' @ ''/'') ''/srv/content/foo/index.html''"
    by (simp add: example_paths)
  with c a m show ?thesis
    by (simp add: example_paths)
qed




section \<open>Every request and its response\<close>














end
